theory Spec2Isabelle
  imports Complex_Main
begin

section \<open>JavaScript values\<close>

text \<open>
  The components read data that comes from \<^verbatim>\<open>JSON.parse\<close> (the uploaded HAR) or from the
  external analyzer (the adjacency matrix), so untyped values are modelled as they are at run
  time.  \<open>JFun\<close> stands for a built-in method found on a prototype (only
  \<^verbatim>\<open>Array.prototype.entries\<close> and \<^verbatim>\<open>Array.prototype.map\<close> are reachable by the property
  names the code reads).  Numbers are rationals: the code only copies them, tests them for
  truthiness and compares them with \<open>1\<close>.  An object is the list of its own properties,
  each name once.
\<close>

datatype js =
    JUndefined
  | JNull
  | JBool bool
  | JNum rat
  | JStr string
  | JArr "js list"
  | JObj "(string \<times> js) list"
  | JFun string

text \<open>ToBoolean, as used by \<^verbatim>\<open>!x\<close>, \<^verbatim>\<open>x ? a : b\<close> and \<^verbatim>\<open>x || d\<close>.\<close>

fun truthy :: "js \<Rightarrow> bool" where
  "truthy JUndefined = False"
| "truthy JNull = False"
| "truthy (JBool b) = b"
| "truthy (JNum n) = (n \<noteq> 0)"
| "truthy (JStr s) = (s \<noteq> [])"
| "truthy (JArr xs) = True"
| "truthy (JObj kvs) = True"
| "truthy (JFun f) = True"

definition js_or :: "js \<Rightarrow> js \<Rightarrow> js" where
  "js_or a d = (if truthy a then a else d)"

text \<open>Reading a property of \<^verbatim>\<open>null\<close> or \<^verbatim>\<open>undefined\<close> throws a TypeError.\<close>

fun nullish :: "js \<Rightarrow> bool" where
  "nullish JUndefined = True"
| "nullish JNull = True"
| "nullish v = False"

text \<open>
  \<open>get_prop v k\<close> is \<^verbatim>\<open>v.k\<close> for a value that is not nullish, for the property names the code
  reads: an object yields its own property or \<^verbatim>\<open>undefined\<close>, an array yields its built-in
  \<^verbatim>\<open>entries\<close> and \<^verbatim>\<open>map\<close> methods, and primitives and functions have none of the names.
  (On a nullish value the caller raises before using the result.)
\<close>

fun get_prop :: "js \<Rightarrow> string \<Rightarrow> js" where
  "get_prop (JObj kvs) k = (case map_of kvs k of Some v \<Rightarrow> v | None \<Rightarrow> JUndefined)"
| "get_prop (JArr xs) k = (if k = ''entries'' \<or> k = ''map'' then JFun k else JUndefined)"
| "get_prop v k = JUndefined"

section \<open>DependencyGraph: the edge list of the adjacency matrix\<close>

record dependency =
  fromIndex :: nat
  toIndex :: nat

record DependencyMatrix =
  adjacencyMatrix :: "js list list"
  criticalPath :: "nat list option"

text \<open>
  The inner loop \<^verbatim>\<open>for (let j = 0; j < row.length; j++)\<close> with the array \<open>deps\<close> that
  \<^verbatim>\<open>push\<close> extends; \<^verbatim>\<open>=== 1\<close> holds for the number 1 only.
\<close>

function deps_row :: "nat \<Rightarrow> js list \<Rightarrow> nat \<Rightarrow> dependency list \<Rightarrow> dependency list" where
  "deps_row i row j deps =
     (if j < length row
      then deps_row i row (Suc j)
             (if row ! j = JNum 1 then deps @ [\<lparr>fromIndex = i, toIndex = j\<rparr>] else deps)
      else deps)"
  by pat_completeness auto
termination
  by (relation "measure (\<lambda>(i, row, j, deps). length row - j)") auto

declare deps_row.simps [simp del]

text \<open>The outer loop \<^verbatim>\<open>for (let i = 0; i < matrix.adjacencyMatrix.length; i++)\<close>.\<close>

function deps_rows :: "js list list \<Rightarrow> nat \<Rightarrow> dependency list \<Rightarrow> dependency list" where
  "deps_rows m i deps =
     (if i < length m then deps_rows m (Suc i) (deps_row i (m ! i) 0 deps) else deps)"
  by pat_completeness auto
termination
  by (relation "measure (\<lambda>(m, i, deps). length m - i)") auto

declare deps_rows.simps [simp del]

definition dependencies :: "DependencyMatrix \<Rightarrow> dependency list" where
  "dependencies matrix = deps_rows (adjacencyMatrix matrix) 0 []"

text \<open>
  The specification's wording of the same list: rows in ascending order, within a row the
  columns in ascending order, one edge for each cell equal to 1.
\<close>

definition row_edges :: "nat \<Rightarrow> js list \<Rightarrow> dependency list" where
  "row_edges i row =
     map (\<lambda>j. \<lparr>fromIndex = i, toIndex = j\<rparr>) (filter (\<lambda>j. row ! j = JNum 1) [0..<length row])"

definition edges_spec :: "js list list \<Rightarrow> dependency list" where
  "edges_spec m = concat (map (\<lambda>i. row_edges i (m ! i)) [0..<length m])"

definition row_major :: "dependency \<Rightarrow> dependency \<Rightarrow> bool" where
  "row_major a b \<longleftrightarrow>
     fromIndex a < fromIndex b \<or> (fromIndex a = fromIndex b \<and> toIndex a < toIndex b)"

section \<open>RequestDataTable: the dependency count\<close>

function count_row :: "js list \<Rightarrow> nat \<Rightarrow> nat \<Rightarrow> nat" where
  "count_row row j count =
     (if j < length row
      then count_row row (Suc j) (if row ! j = JNum 1 then count + 1 else count)
      else count)"
  by pat_completeness auto
termination
  by (relation "measure (\<lambda>(row, j, count). length row - j)") auto

declare count_row.simps [simp del]

function count_rows :: "js list list \<Rightarrow> nat \<Rightarrow> nat \<Rightarrow> nat" where
  "count_rows m i count =
     (if i < length m then count_rows m (Suc i) (count_row (m ! i) 0 count) else count)"
  by pat_completeness auto
termination
  by (relation "measure (\<lambda>(m, i, count). length m - i)") auto

declare count_rows.simps [simp del]

text \<open>\<^verbatim>\<open>if (!dependencyMatrix) return 0\<close>: the table accepts \<^verbatim>\<open>null\<close> for the matrix.\<close>

definition dependencyCount :: "DependencyMatrix option \<Rightarrow> nat" where
  "dependencyCount dependencyMatrix =
     (case dependencyMatrix of
        None \<Rightarrow> 0
      | Some dm \<Rightarrow> count_rows (adjacencyMatrix dm) 0 0)"

section \<open>Printing and parsing numbers\<close>

text \<open>
  \<^verbatim>\<open>`${index}`\<close> prints an array index in decimal (indices stay far below the range where
  JavaScript switches to exponent notation).
\<close>

definition digit_char :: "nat \<Rightarrow> char" where
  "digit_char d = char_of (48 + d)"

fun string_of_nat :: "nat \<Rightarrow> string" where
  "string_of_nat n =
     (if n < 10 then [digit_char n] else string_of_nat (n div 10) @ [digit_char (n mod 10)])"

declare string_of_nat.simps [simp del]

text \<open>
  \<^verbatim>\<open>parseInt(string)\<close> with no radix, after ECMAScript: leading white space is skipped, a
  sign is read, a \<^verbatim>\<open>0x\<close> prefix selects radix 16, the longest prefix of digits is the
  value, and no digit at all gives \<^verbatim>\<open>NaN\<close> (\<open>None\<close>).  The value is the exact integer (a
  double is exact up to \<open>2 ^ 53\<close>); white space is the ASCII part of the standard's set.
\<close>

definition is_white_space :: "char \<Rightarrow> bool" where
  "is_white_space c = ((of_char c :: nat) \<in> {9, 10, 11, 12, 13, 32})"

definition digit_value :: "char \<Rightarrow> nat option" where
  "digit_value c =
     (let n = (of_char c :: nat)
      in if 48 \<le> n \<and> n \<le> 57 then Some (n - 48)
         else if 97 \<le> n \<and> n \<le> 122 then Some (n - 87)
         else if 65 \<le> n \<and> n \<le> 90 then Some (n - 55)
         else None)"

definition radix_digit :: "nat \<Rightarrow> char \<Rightarrow> bool" where
  "radix_digit R c = (case digit_value c of Some d \<Rightarrow> d < R | None \<Rightarrow> False)"

definition digits_value :: "nat \<Rightarrow> string \<Rightarrow> nat" where
  "digits_value R Z =
     foldl (\<lambda>acc c. acc * R + (case digit_value c of Some d \<Rightarrow> d | None \<Rightarrow> 0)) 0 Z"

definition parseInt :: "string \<Rightarrow> int option" where
  "parseInt inputString =
     (let S = dropWhile is_white_space inputString;
          sign = (if take 1 S = ''-'' then - 1 else 1);
          S1 = (if take 1 S = ''+'' \<or> take 1 S = ''-'' then drop 1 S else S);
          hex = (take 2 S1 = ''0x'' \<or> take 2 S1 = ''0X'');
          R = (if hex then 16 else 10);
          S2 = (if hex then drop 2 S1 else S1);
          Z = takeWhile (radix_digit R) S2
      in if Z = [] then None else Some (sign * int (digits_value R Z)))"

text \<open>\<^verbatim>\<open>n || d\<close> on a number: \<^verbatim>\<open>NaN\<close> and \<open>0\<close> are falsy.\<close>

definition number_or :: "int option \<Rightarrow> int \<Rightarrow> int" where
  "number_or n d = (case n of None \<Rightarrow> d | Some k \<Rightarrow> if k = 0 then d else k)"

section \<open>LoliCodeCustomizer\<close>

record CustomHeader =
  header_name :: string
  header_value :: string

text \<open>The six \<^verbatim>\<open>useState\<close> cells of the component, with their initial values below.\<close>

record customizer =
  st_selectedIndices :: "nat list"
  st_useProxy :: bool
  st_followRedirects :: bool
  st_requestTimeout :: int
  st_retryCount :: int
  st_customHeaders :: "CustomHeader list"

definition initial_customizer :: customizer where
  "initial_customizer =
     \<lparr>st_selectedIndices = [], st_useProxy = True, st_followRedirects = True,
      st_requestTimeout = 30, st_retryCount = 0, st_customHeaders = []\<rparr>"

record settings =
  useProxy :: bool
  followRedirects :: bool
  timeout :: int
  retryCount :: int

text \<open>The object literal built in \<^verbatim>\<open>handleGenerate\<close> has exactly these two properties.\<close>

record LoliCodeConfig =
  selectedIndices :: "nat list"
  settings :: settings

text \<open>\<^verbatim>\<open>entries.map((_, i) => i)\<close>\<close>

definition availableIndices :: "'e list \<Rightarrow> nat list" where
  "availableIndices entries = [0..<length entries]"

definition handleSelectAll :: "'e list \<Rightarrow> customizer \<Rightarrow> customizer" where
  "handleSelectAll entries st = st\<lparr>st_selectedIndices := availableIndices entries\<rparr>"

definition handleSelectNone :: "customizer \<Rightarrow> customizer" where
  "handleSelectNone st = st\<lparr>st_selectedIndices := []\<rparr>"

text \<open>
  \<^verbatim>\<open>if (dependencyMatrix?.criticalPath)\<close>: nothing happens without a matrix or without a
  critical path; an array, also an empty one, is truthy.
\<close>

definition handleSelectCriticalPath :: "DependencyMatrix option \<Rightarrow> customizer \<Rightarrow> customizer" where
  "handleSelectCriticalPath dependencyMatrix st =
     (case dependencyMatrix of
        None \<Rightarrow> st
      | Some dm \<Rightarrow>
          (case criticalPath dm of
             None \<Rightarrow> st
           | Some path \<Rightarrow> st\<lparr>st_selectedIndices := path\<rparr>))"

definition addCustomHeader :: "customizer \<Rightarrow> customizer" where
  "addCustomHeader st =
     st\<lparr>st_customHeaders := st_customHeaders st @ [\<lparr>header_name = [], header_value = []\<rparr>]\<rparr>"

datatype header_field = Name | Value

text \<open>
  \<^verbatim>\<open>updated[index][field] = value\<close> throws when there is no header at \<open>index\<close>
  (\<open>None\<close>); the text inputs only call it with the index of a rendered header.
\<close>

definition updateCustomHeader ::
  "nat \<Rightarrow> header_field \<Rightarrow> string \<Rightarrow> customizer \<Rightarrow> customizer option" where
  "updateCustomHeader index field v st =
     (let prev = st_customHeaders st
      in if index < length prev
         then Some (st\<lparr>st_customHeaders :=
                prev[index := (case field of
                                 Name \<Rightarrow> (prev ! index)\<lparr>header_name := v\<rparr>
                               | Value \<Rightarrow> (prev ! index)\<lparr>header_value := v\<rparr>)]\<rparr>)
         else None)"

text \<open>\<^verbatim>\<open>prev.filter((_, i) => i !== index)\<close>\<close>

definition removeCustomHeader :: "nat \<Rightarrow> customizer \<Rightarrow> customizer" where
  "removeCustomHeader index st =
     st\<lparr>st_customHeaders :=
        map snd (filter (\<lambda>(i, h). i \<noteq> index) (enumerate 0 (st_customHeaders st)))\<rparr>"

text \<open>The two number inputs: \<^verbatim>\<open>Math.max(1, parseInt(e.target.value) || 30)\<close> and
  \<^verbatim>\<open>Math.max(0, parseInt(e.target.value) || 0)\<close>.\<close>

definition timeout_onChange :: "string \<Rightarrow> customizer \<Rightarrow> customizer" where
  "timeout_onChange target_value st =
     st\<lparr>st_requestTimeout := max 1 (number_or (parseInt target_value) 30)\<rparr>"

definition retry_onChange :: "string \<Rightarrow> customizer \<Rightarrow> customizer" where
  "retry_onChange target_value st =
     st\<lparr>st_retryCount := max 0 (number_or (parseInt target_value) 0)\<rparr>"

text \<open>\<open>handleGenerate\<close> returns the configuration it passes to \<^verbatim>\<open>onGenerate\<close>.\<close>

definition handleGenerate :: "'e list \<Rightarrow> customizer \<Rightarrow> LoliCodeConfig" where
  "handleGenerate entries st =
     \<lparr>selectedIndices =
        (if length (st_selectedIndices st) > 0 then st_selectedIndices st
         else availableIndices entries),
      settings =
        \<lparr>useProxy = st_useProxy st,
         followRedirects = st_followRedirects st,
         timeout = st_requestTimeout st,
         retryCount = st_retryCount st\<rparr>\<rparr>"

text \<open>The \<^verbatim>\<open>disabled\<close> attribute of the Generate button.\<close>

definition generate_disabled :: "'e list \<Rightarrow> customizer \<Rightarrow> bool" where
  "generate_disabled entries st \<longleftrightarrow>
     length (st_selectedIndices st) = 0 \<and> length (availableIndices entries) > 0"

section \<open>HARUploader\<close>

text \<open>
  What a \<^verbatim>\<open>catch\<close> can receive.  The texts of a SyntaxError of \<^verbatim>\<open>JSON.parse\<close> and of an
  engine TypeError are the engine's; \<open>Thrown\<close> is a rejection value that is not an
  \<^verbatim>\<open>Error\<close> instance.
\<close>

datatype js_exn = SyntaxError string | TypeError string | Error string | Thrown

fun instanceof_Error :: "js_exn \<Rightarrow> bool" where
  "instanceof_Error Thrown = False"
| "instanceof_Error e = True"

fun message :: "js_exn \<Rightarrow> string" where
  "message (SyntaxError m) = m"
| "message (TypeError m) = m"
| "message (Error m) = m"
| "message Thrown = []"

definition cannot_read :: "js \<Rightarrow> string \<Rightarrow> js_exn" where
  "cannot_read v k =
     TypeError (''Cannot read properties of '' @ (if v = JNull then ''null'' else ''undefined'')
                @ '' (reading '' @ k @ '')'')"

record body =
  mimeType :: js
  body_text :: js
  body_size :: js

text \<open>
  The semantic entry.  The uploader fills \<open>method\<close> and \<open>url\<close> with whatever the JSON holds
  (\<open>'m = js\<close>); the components that display entries read them at the declared type
  \<^verbatim>\<open>string\<close> (\<open>'m = string\<close>).
\<close>

record 'm request =
  "method" :: 'm
  url :: 'm
  headers :: js
  body :: "body option"
  cookies :: js
  queryString :: js

record response =
  status :: js
  statusText :: js
  response_headers :: js
  response_body :: "body option"
  response_cookies :: js

record 'm SemanticHarEntry =
  entryId :: string
  timestamp :: js
  duration :: js
  request :: "'m request"
  response :: response
  tokens :: "js list"
  entry_dependencies :: "js list"

text \<open>
  The callback of \<^verbatim>\<open>harData.log.entries.map\<close>.  The object literal is evaluated top to
  bottom: \<^verbatim>\<open>entry.startedDateTime\<close> throws on a \<^verbatim>\<open>null\<close> entry, \<^verbatim>\<open>entry.request.method\<close>
  on a missing request, \<^verbatim>\<open>entry.response.status\<close> on a missing response; no other read can
  throw, since \<^verbatim>\<open>postData\<close> and \<^verbatim>\<open>content\<close> are read further only when truthy.
\<close>

definition semanticEntry :: "js \<Rightarrow> nat \<Rightarrow> js_exn + js SemanticHarEntry" where
  "semanticEntry entry index =
     (let req = get_prop entry ''request'';
          res = get_prop entry ''response'';
          postData = get_prop req ''postData'';
          content = get_prop res ''content''
      in if nullish entry then Inl (cannot_read entry ''startedDateTime'')
         else if nullish req then Inl (cannot_read req ''method'')
         else if nullish res then Inl (cannot_read res ''status'')
         else Inr
           \<lparr>entryId = ''entry-'' @ string_of_nat index,
            timestamp = get_prop entry ''startedDateTime'',
            duration = get_prop entry ''time'',
            request =
              \<lparr>method = get_prop req ''method'',
               url = get_prop req ''url'',
               headers = js_or (get_prop req ''headers'') (JArr []),
               body =
                 (if truthy postData
                  then Some \<lparr>mimeType = get_prop postData ''mimeType'',
                             body_text = get_prop postData ''text'',
                             body_size = js_or (get_prop req ''bodySize'') (JNum 0)\<rparr>
                  else None),
               cookies = js_or (get_prop req ''cookies'') (JArr []),
               queryString = js_or (get_prop req ''queryString'') (JArr [])\<rparr>,
            response =
              \<lparr>status = get_prop res ''status'',
               statusText = get_prop res ''statusText'',
               response_headers = js_or (get_prop res ''headers'') (JArr []),
               response_body =
                 (if truthy content
                  then Some \<lparr>mimeType = get_prop content ''mimeType'',
                             body_text = get_prop content ''text'',
                             body_size = js_or (get_prop content ''size'') (JNum 0)\<rparr>
                  else None),
               response_cookies = js_or (get_prop res ''cookies'') (JArr [])\<rparr>,
            tokens = [],
            entry_dependencies = []\<rparr>)"

text \<open>\<^verbatim>\<open>Array.prototype.map\<close> with the index; the first exception ends it.\<close>

fun map_entries :: "nat \<Rightarrow> js list \<Rightarrow> js_exn + js SemanticHarEntry list" where
  "map_entries index [] = Inr []"
| "map_entries index (entry # rest) =
     (case semanticEntry entry index of
        Inl e \<Rightarrow> Inl e
      | Inr x \<Rightarrow>
          (case map_entries (Suc index) rest of
             Inl e \<Rightarrow> Inl e
           | Inr xs \<Rightarrow> Inr (x # xs)))"

text \<open>
  The body of the \<^verbatim>\<open>try\<close> block up to the \<^verbatim>\<open>dispatch\<close>: the file's text (or the rejection
  of \<^verbatim>\<open>file.text()\<close>), \<^verbatim>\<open>JSON.parse\<close> (given as a function, \<open>Inl\<close> the text of its
  SyntaxError), the validation and the mapping.
\<close>

definition semanticEntries ::
  "(string \<Rightarrow> string + js) \<Rightarrow> js_exn + string \<Rightarrow> js_exn + js SemanticHarEntry list" where
  "semanticEntries JSON_parse file_text =
     (case file_text of
        Inl e \<Rightarrow> Inl e
      | Inr text \<Rightarrow>
          (case JSON_parse text of
             Inl m \<Rightarrow> Inl (SyntaxError m)
           | Inr harData \<Rightarrow>
               (let log_v = get_prop harData ''log''; entries = get_prop log_v ''entries''
                in if nullish harData then Inl (cannot_read harData ''log'')
                   else if \<not> truthy log_v \<or> \<not> truthy entries
                   then Inl (Error ''Invalid HAR file format'')
                   else (case entries of
                           JArr es \<Rightarrow> map_entries 0 es
                         | _ \<Rightarrow> Inl (TypeError ''harData.log.entries.map is not a function'')))))"

text \<open>
  The component's state cells and the actions it has dispatched to the store, in order
  (the store's reducer is not part of this component).
\<close>

datatype action = setHarEntries "js SemanticHarEntry list"

record uploader =
  isDragging :: bool
  isProcessing :: bool
  error :: "string option"
  dispatched :: "action list"

definition processHARFile ::
  "(string \<Rightarrow> string + js) \<Rightarrow> js_exn + string \<Rightarrow> uploader \<Rightarrow> uploader" where
  "processHARFile JSON_parse file_text st =
     (let st1 = st\<lparr>isProcessing := True, error := None\<rparr>;
          st2 = (case semanticEntries JSON_parse file_text of
                   Inr es \<Rightarrow> st1\<lparr>dispatched := dispatched st1 @ [setHarEntries es]\<rparr>
                 | Inl err \<Rightarrow>
                     st1\<lparr>error := Some (if instanceof_Error err then message err
                                         else ''Failed to parse HAR file'')\<rparr>)
      in st2\<lparr>isProcessing := False\<rparr>)"

text \<open>
  The specification's reading of the input: a HAR is an object with a \<open>log\<close> object that
  holds an \<open>entries\<close> array, and a valid entry is an object with a \<open>request\<close> and a
  \<open>response\<close> object.
\<close>

definition log_entries :: "js \<Rightarrow> js list option" where
  "log_entries harData =
     (case harData of
        JObj kvs \<Rightarrow>
          (case map_of kvs ''log'' of
             Some (JObj log_kvs) \<Rightarrow>
               (case map_of log_kvs ''entries'' of Some (JArr es) \<Rightarrow> Some es | _ \<Rightarrow> None)
           | _ \<Rightarrow> None)
      | _ \<Rightarrow> None)"

fun is_object :: "js \<Rightarrow> bool" where
  "is_object (JObj kvs) = True"
| "is_object v = False"

definition valid_entry :: "js \<Rightarrow> bool" where
  "valid_entry entry \<longleftrightarrow>
     is_object entry \<and> is_object (get_prop entry ''request'')
     \<and> is_object (get_prop entry ''response'')"

section \<open>DependencyGraph: labels\<close>

text \<open>
  \<^verbatim>\<open>new URL(s)\<close> is the platform's parser: it is a parameter, \<open>None\<close> where it throws.
\<close>

record URL =
  hostname :: string
  pathname :: string

text \<open>\<^verbatim>\<open>s.split('/')\<close>: always at least one piece.\<close>

fun split :: "char \<Rightarrow> string \<Rightarrow> string list" where
  "split sep [] = [[]]"
| "split sep (c # cs) =
     (if c = sep then [] # split sep cs
      else (case split sep cs of
              w # ws \<Rightarrow> (c # w) # ws
            | [] \<Rightarrow> [[c]]))"

definition getEntryLabel ::
  "(string \<Rightarrow> URL option) \<Rightarrow> string SemanticHarEntry list \<Rightarrow> nat \<Rightarrow> string" where
  "getEntryLabel new_URL entries index =
     (if \<not> index < length entries then ''Request #'' @ string_of_nat index
      else
        (let entry = entries ! index
         in case new_URL (url (request entry)) of
              Some u \<Rightarrow> method (request entry) @ '' '' @
                  (let seg = last (split (CHR ''/'') (pathname u))
                   in if seg \<noteq> [] then seg else ''/'')
            | None \<Rightarrow> method (request entry) @ '' Request #'' @ string_of_nat index))"

section \<open>Example data\<close>

text \<open>
  A HAR with two entries: a POST with post-data and response content, and a GET with
  neither.
\<close>

definition example_har :: js where
  "example_har =
     JObj [(''log'', JObj
       [(''version'', JStr ''1.2''),
        (''entries'', JArr
          [JObj [(''startedDateTime'', JStr ''2024-01-01T00:00:00.000Z''),
                 (''time'', JNum 12),
                 (''request'', JObj
                    [(''method'', JStr ''POST''),
                     (''url'', JStr ''https://example.com/api/login''),
                     (''bodySize'', JNum 2),
                     (''postData'', JObj [(''mimeType'', JStr ''application/json''),
                                           (''text'', JStr ''{}'')])]),
                 (''response'', JObj
                    [(''status'', JNum 200),
                     (''content'', JObj [(''size'', JNum 2), (''text'', JStr ''ok'')])])],
           JObj [(''request'', JObj
                    [(''method'', JStr ''GET''), (''url'', JStr ''https://example.com/'')]),
                 (''response'', JObj [(''status'', JNum 204)])]])])]"

definition initial_uploader :: uploader where
  "initial_uploader =
     \<lparr>isDragging = False, isProcessing = False, error = None, dispatched = []\<rparr>"

text \<open>
  A stand-in for \<^verbatim>\<open>new URL\<close> in the examples: it parses the one address used there and
  throws on any other string; the examples apply it to that address and to
  \<^verbatim>\<open>"not a url"\<close> only.
\<close>

definition example_URL :: "string \<Rightarrow> URL option" where
  "example_URL s =
     (if s = ''https://example.com/api/login''
      then Some \<lparr>hostname = ''example.com'', pathname = ''/api/login''\<rparr>
      else None)"

definition example_entry :: "string \<Rightarrow> string \<Rightarrow> string SemanticHarEntry" where
  "example_entry m u =
     \<lparr>entryId = ''entry-0'', timestamp = JUndefined, duration = JNum 12,
      request = \<lparr>method = m, url = u, headers = JArr [], body = None, cookies = JArr [],
                 queryString = JArr []\<rparr>,
      response = \<lparr>status = JNum 200, statusText = JStr ''OK'', response_headers = JArr [],
                  response_body = None, response_cookies = JArr []\<rparr>,
      tokens = [], entry_dependencies = []\<rparr>"

text \<open>A row of six zeros, for the example matrices.\<close>

definition zeros :: "js list" where
  "zeros = replicate 6 (JNum 0)"

section \<open>Properties of the edge list\<close>

lemma deps_row_eq:
  "deps_row i row j deps =
     deps @ map (\<lambda>j. \<lparr>fromIndex = i, toIndex = j\<rparr>)
              (filter (\<lambda>j. row ! j = JNum 1) [j..<length row])"
proof (induction i row j deps rule: deps_row.induct)
  case (1 i row j deps)
  show ?case
  proof (cases "j < length row")
    case True
    then have "[j..<length row] = j # [Suc j..<length row]"
      by (simp add: upt_conv_Cons)
    with True "1.IH" show ?thesis
      by (subst deps_row.simps) simp
  next
    case False
    then show ?thesis
      by (subst deps_row.simps) simp
  qed
qed

lemma deps_rows_eq:
  "deps_rows m i deps = deps @ concat (map (\<lambda>i. row_edges i (m ! i)) [i..<length m])"
proof (induction m i deps rule: deps_rows.induct)
  case (1 m i deps)
  show ?case
  proof (cases "i < length m")
    case True
    then have "[i..<length m] = i # [Suc i..<length m]"
      by (simp add: upt_conv_Cons)
    with True "1.IH" show ?thesis
      by (subst deps_rows.simps) (simp add: deps_row_eq row_edges_def)
  next
    case False
    then show ?thesis
      by (subst deps_rows.simps) simp
  qed
qed

lemma dependencies_edges_spec: "dependencies matrix = edges_spec (adjacencyMatrix matrix)"
  by (simp add: dependencies_def edges_spec_def deps_rows_eq)

lemma count_row_eq:
  "count_row row j count = count + length (filter (\<lambda>j. row ! j = JNum 1) [j..<length row])"
proof (induction row j count rule: count_row.induct)
  case (1 row j count)
  show ?case
  proof (cases "j < length row")
    case True
    then have "[j..<length row] = j # [Suc j..<length row]"
      by (simp add: upt_conv_Cons)
    with True "1.IH" show ?thesis
      by (subst count_row.simps) simp
  next
    case False
    then show ?thesis
      by (subst count_row.simps) simp
  qed
qed

lemma count_rows_eq:
  "count_rows m i count = count + length (concat (map (\<lambda>i. row_edges i (m ! i)) [i..<length m]))"
proof (induction m i count rule: count_rows.induct)
  case (1 m i count)
  show ?case
  proof (cases "i < length m")
    case True
    then have "[i..<length m] = i # [Suc i..<length m]"
      by (simp add: upt_conv_Cons)
    with True "1.IH" show ?thesis
      by (subst count_rows.simps) (simp add: count_row_eq row_edges_def)
  next
    case False
    then show ?thesis
      by (subst count_rows.simps) simp
  qed
qed

lemma row_edges_sorted: "sorted_wrt row_major (row_edges i row)"
  by (simp add: row_edges_def sorted_wrt_map row_major_def sorted_wrt_filter)

lemma fromIndex_row_edges: "e \<in> set (row_edges i row) \<Longrightarrow> fromIndex e = i"
  by (auto simp: row_edges_def)

lemma concat_rows_sorted:
  "sorted_wrt row_major (concat (map (\<lambda>i. row_edges i (f i)) [0..<n]))"
proof (induction n)
  case 0
  show ?case by simp
next
  case (Suc n)
  have "row_major x y"
    if "x \<in> set (concat (map (\<lambda>i. row_edges i (f i)) [0..<n]))"
      and "y \<in> set (row_edges n (f n))" for x y
  proof -
    from that(1) obtain i where "i < n" "x \<in> set (row_edges i (f i))" by auto
    with that(2) show ?thesis
      by (simp add: row_major_def fromIndex_row_edges)
  qed
  with Suc show ?case
    by (simp add: sorted_wrt_append row_edges_sorted)
qed

lemma edges_spec_sorted: "sorted_wrt row_major (edges_spec m)"
  unfolding edges_spec_def by (rule concat_rows_sorted)

lemma set_edges_spec:
  "\<lparr>fromIndex = i, toIndex = j\<rparr> \<in> set (edges_spec m)
     \<longleftrightarrow> i < length m \<and> j < length (m ! i) \<and> m ! i ! j = JNum 1"
  by (auto simp: edges_spec_def row_edges_def)

lemma row_major_distinct: "sorted_wrt row_major xs \<Longrightarrow> distinct xs"
  by (induction xs) (auto simp: row_major_def)

lemma distinct_singleton_set:
  assumes "distinct xs" and "set xs = {a}"
  shows "xs = [a]"
proof (cases xs)
  case Nil
  with assms(2) show ?thesis by simp
next
  case (Cons x ys)
  with assms have "x = a" and "set ys \<subseteq> {a}" and "a \<notin> set ys" by auto
  then have "ys = []" by (cases ys) auto
  with Cons \<open>x = a\<close> show ?thesis by simp
qed

lemma length_filter_nth:
  "length (filter (\<lambda>j. row ! j = v) [0..<length row]) = length (filter (\<lambda>c. c = v) row)"
proof -
  have "filter (\<lambda>c. c = v) row = filter (\<lambda>c. c = v) (map (nth row) [0..<length row])"
    by (simp add: map_nth)
  also have "\<dots> = map (nth row) (filter (\<lambda>j. row ! j = v) [0..<length row])"
    by (simp add: filter_map comp_def)
  finally show ?thesis by simp
qed

lemma length_edges_spec:
  "length (edges_spec m) = sum_list (map (\<lambda>row. length (filter (\<lambda>c. c = JNum 1) row)) m)"
proof -
  let ?g = "\<lambda>row. length (filter (\<lambda>c. c = JNum 1) row)"
  have "length (edges_spec m) = sum_list (map (\<lambda>i. ?g (m ! i)) [0..<length m])"
    by (simp add: edges_spec_def length_concat row_edges_def length_filter_nth comp_def)
  also have "map (\<lambda>i. ?g (m ! i)) [0..<length m] = map ?g (map (nth m) [0..<length m])"
    by simp
  also have "\<dots> = map ?g m"
    by (simp only: map_nth)
  finally show ?thesis .
qed

lemma only_edge:
  assumes "2 < length m" and "5 < length (m ! 2)"
    and "\<forall>i<length m. \<forall>j<length (m ! i). (m ! i ! j = JNum 1) = (i = 2 \<and> j = 5)"
  shows "edges_spec m = [\<lparr>fromIndex = 2, toIndex = 5\<rparr>]"
proof -
  have "set (edges_spec m) = {\<lparr>fromIndex = 2, toIndex = 5\<rparr>}"
  proof (rule set_eqI)
    fix e :: dependency
    show "e \<in> set (edges_spec m) \<longleftrightarrow> e \<in> {\<lparr>fromIndex = 2, toIndex = 5\<rparr>}"
    proof (cases e)
      case (fields i j)
      with assms set_edges_spec [of i j m] show ?thesis by auto
    qed
  qed
  then show ?thesis
    by (rule distinct_singleton_set [OF row_major_distinct [OF edges_spec_sorted]])
qed

text \<open>
  C2: the edge list is the row-major scan of the matrix (row index ascending, then column
  index ascending) with exactly one edge for each cell equal to 1: it is the list the
  specification describes, it is strictly increasing in row-major order (so no edge occurs
  twice), and an edge is in it exactly when its cell holds 1.  Being a function of the
  matrix alone, it gives the same list on every call.  A matrix whose only 1 is at
  \<open>[2][5]\<close> yields exactly \<open>[{fromIndex: 2, toIndex: 5}]\<close>.
\<close>

theorem dependencies_row_major:
  "dependencies matrix = edges_spec (adjacencyMatrix matrix)
   \<and> sorted_wrt row_major (dependencies matrix)
   \<and> (\<forall>i j. \<lparr>fromIndex = i, toIndex = j\<rparr> \<in> set (dependencies matrix) \<longleftrightarrow>
         i < length (adjacencyMatrix matrix) \<and> j < length (adjacencyMatrix matrix ! i)
         \<and> adjacencyMatrix matrix ! i ! j = JNum 1)
   \<and> (2 < length (adjacencyMatrix matrix) \<and> 5 < length (adjacencyMatrix matrix ! 2)
       \<and> (\<forall>i<length (adjacencyMatrix matrix). \<forall>j<length (adjacencyMatrix matrix ! i).
             (adjacencyMatrix matrix ! i ! j = JNum 1) = (i = 2 \<and> j = 5))
       \<longrightarrow> dependencies matrix = [\<lparr>fromIndex = 2, toIndex = 5\<rparr>])"
  by (simp add: dependencies_edges_spec edges_spec_sorted set_edges_spec only_edge)

theorem dependencies_row_major_witness:
  "dependencies
     \<lparr>adjacencyMatrix = [zeros, zeros, zeros[5 := JNum 1], zeros, zeros, zeros],
      criticalPath = None\<rparr>
   = [\<lparr>fromIndex = 2, toIndex = 5\<rparr>]"
proof -
  let ?M = "\<lparr>adjacencyMatrix = [zeros, zeros, zeros[5 := JNum 1], zeros, zeros, zeros],
             criticalPath = None\<rparr>"
  have "2 < length (adjacencyMatrix ?M) \<and> 5 < length (adjacencyMatrix ?M ! 2)
       \<and> (\<forall>i<length (adjacencyMatrix ?M). \<forall>j<length (adjacencyMatrix ?M ! i).
             (adjacencyMatrix ?M ! i ! j = JNum 1) = (i = 2 \<and> j = 5))"
    by (simp add: zeros_def eval_nat_numeral All_less_Suc)
  with dependencies_row_major [of ?M] show ?thesis by blast
qed

text \<open>
  C10: the dependency count of RequestDataTable equals the length of the edge list of
  DependencyGraph for the same matrix; both are the number of cells holding exactly the
  number 1, so a cell with any other value contributes to neither.
\<close>

theorem dependencyCount_length:
  "dependencyCount (Some matrix) = length (dependencies matrix)
   \<and> dependencyCount (Some matrix) =
       sum_list (map (\<lambda>row. length (filter (\<lambda>c. c = JNum 1) row)) (adjacencyMatrix matrix))
   \<and> dependencyCount None = 0"
  by (simp add: dependencyCount_def count_rows_eq dependencies_edges_spec edges_spec_def
      flip: length_edges_spec)

section \<open>Properties of number printing and parsing\<close>

lemma digit_char_inj: "a < 10 \<Longrightarrow> b < 10 \<Longrightarrow> digit_char a = digit_char b \<Longrightarrow> a = b"
  by (simp add: digit_char_def char_of_quasi_inj)

lemma string_of_nat_nonempty: "string_of_nat n \<noteq> []"
  by (subst string_of_nat.simps) simp

lemma string_of_nat_inj: "string_of_nat n = string_of_nat m \<Longrightarrow> n = m"
proof (induction n arbitrary: m rule: string_of_nat.induct)
  case (1 n)
  show ?case
  proof (cases "n < 10")
    case n: True
    show ?thesis
    proof (cases "m < 10")
      case True
      with n "1.prems" show ?thesis
        by (simp add: string_of_nat.simps [of n] string_of_nat.simps [of m] digit_char_inj)
    next
      case False
      with n "1.prems" string_of_nat_nonempty [of "m div 10"] show ?thesis
        by (simp add: string_of_nat.simps [of n] string_of_nat.simps [of m])
    qed
  next
    case n: False
    show ?thesis
    proof (cases "m < 10")
      case True
      with n "1.prems" string_of_nat_nonempty [of "n div 10"] show ?thesis
        by (simp add: string_of_nat.simps [of n] string_of_nat.simps [of m])
    next
      case False
      with n "1.prems" have eq: "string_of_nat (n div 10) = string_of_nat (m div 10)"
        and d: "digit_char (n mod 10) = digit_char (m mod 10)"
        by (simp_all add: string_of_nat.simps [of n] string_of_nat.simps [of m])
      from "1.IH" [OF n eq] have "n div 10 = m div 10" .
      moreover from d have "n mod 10 = m mod 10"
        by (rule digit_char_inj [rotated 2]) simp_all
      ultimately show ?thesis
        by (metis div_mult_mod_eq)
    qed
  qed
qed

lemma string_of_nat_digits:
  "string_of_nat 0 = ''0''" "string_of_nat (Suc 0) = ''1''" "string_of_nat 1 = ''1''"
  by code_simp+

lemma parseInt_examples:
  "parseInt ''-5'' = Some (- 5)" "parseInt ''abc'' = None" "parseInt ''1000'' = Some 1000"
  "parseInt ''42'' = Some 42" "parseInt ''0'' = Some 0" "parseInt [] = None"
  "parseInt ''-1'' = Some (- 1)" "parseInt ''50'' = Some 50" "parseInt ''7'' = Some 7"
  by code_simp+

section \<open>Properties of the customizer\<close>

text \<open>
  The Generate button is disabled exactly in the state in which \<open>handleGenerate\<close> would
  substitute the full index range.
\<close>

lemma generate_disabled_iff:
  "generate_disabled entries st \<longleftrightarrow> st_selectedIndices st = [] \<and> entries \<noteq> []"
  by (simp add: generate_disabled_def availableIndices_def)

text \<open>
  C1, as stated, fails where no entries exist but the selection is not empty: after
  "select all" on five entries, a build over an empty entries array still yields
  \<open>[0,1,2,3,4]\<close>, not the empty selection.
\<close>

theorem handleGenerate_stale_selection:
  "selectedIndices
     (handleGenerate ([] :: unit list) (handleSelectAll [(), (), (), (), ()] initial_customizer))
   = [0, 1, 2, 3, 4]"
  by (simp add: handleGenerate_def handleSelectAll_def availableIndices_def
      initial_customizer_def upt_rec)

text \<open>
  C1, amended: when the current selection is empty, the built \<open>selectedIndices\<close> is the
  full index range \<open>[0 .. N-1]\<close> over the \<open>N\<close> entries, so \<open>[0,1,2,3,4]\<close> for five entries,
  never \<open>[]\<close>, and empty when no entries exist; a selection that is not empty is passed
  through unchanged, also when no entries exist.
\<close>

theorem handleGenerate_selectedIndices:
  "(st_selectedIndices st = [] \<longrightarrow>
      selectedIndices (handleGenerate entries st) = [0..<length entries])
   \<and> (st_selectedIndices st = [] \<and> length entries = 5 \<longrightarrow>
      selectedIndices (handleGenerate entries st) = [0, 1, 2, 3, 4])
   \<and> (st_selectedIndices st = [] \<and> entries = [] \<longrightarrow>
      selectedIndices (handleGenerate entries st) = [])
   \<and> (st_selectedIndices st \<noteq> [] \<longrightarrow>
      selectedIndices (handleGenerate entries st) = st_selectedIndices st)"
  by (simp add: handleGenerate_def availableIndices_def upt_rec)

theorem handleGenerate_selectedIndices_witness:
  "st_selectedIndices initial_customizer = []
   \<and> selectedIndices (handleGenerate [(), (), (), (), ()] initial_customizer) = [0, 1, 2, 3, 4]
   \<and> selectedIndices (handleGenerate ([] :: unit list) initial_customizer) = []
   \<and> st_selectedIndices (handleSelectCriticalPath
        (Some \<lparr>adjacencyMatrix = [], criticalPath = Some [3, 1, 4]\<rparr>) initial_customizer) \<noteq> []
   \<and> selectedIndices (handleGenerate [(), (), (), (), ()]
        (handleSelectCriticalPath
          (Some \<lparr>adjacencyMatrix = [], criticalPath = Some [3, 1, 4]\<rparr>) initial_customizer))
      = [3, 1, 4]"
  using handleGenerate_selectedIndices [of initial_customizer "[(), (), (), (), ()]"]
    handleGenerate_selectedIndices [of initial_customizer "[] :: unit list"]
    handleGenerate_selectedIndices
      [of "handleSelectCriticalPath
            (Some \<lparr>adjacencyMatrix = [], criticalPath = Some [3, 1, 4]\<rparr>) initial_customizer"
          "[(), (), (), (), ()]"]
  by (simp add: initial_customizer_def handleSelectCriticalPath_def)

text \<open>
  C9: for a critical path that is not empty, "select critical path" sets the selection to
  exactly that sequence, in its order, neither sorted nor deduplicated, and changes nothing
  else; \<open>[3,1,4]\<close> gives \<open>[3,1,4]\<close>.
\<close>

theorem handleSelectCriticalPath_sets_path:
  "criticalPath dm = Some path \<Longrightarrow> path \<noteq> [] \<Longrightarrow>
     handleSelectCriticalPath (Some dm) st = st\<lparr>st_selectedIndices := path\<rparr>
     \<and> st_selectedIndices (handleSelectCriticalPath (Some dm) st) = path"
  by (simp add: handleSelectCriticalPath_def)

theorem handleSelectCriticalPath_sets_path_witness:
  "criticalPath \<lparr>adjacencyMatrix = [], criticalPath = Some [3, 1, 4]\<rparr> = Some [3, 1, 4]
   \<and> [3, 1, 4 :: nat] \<noteq> []
   \<and> st_selectedIndices
        (handleSelectCriticalPath (Some \<lparr>adjacencyMatrix = [], criticalPath = Some [3, 1, 4]\<rparr>)
           initial_customizer) = [3, 1, 4]"
  using handleSelectCriticalPath_sets_path
    [of "\<lparr>adjacencyMatrix = [], criticalPath = Some [3, 1, 4]\<rparr>" "[3, 1, 4]" initial_customizer]
  by simp

text \<open>
  C3, as stated, fails at the input \<open>-5\<close>: the handler raises it to the minimum 1 and does
  not replace it by the default 30.
\<close>

theorem timeout_onChange_minus_5:
  "st_requestTimeout (timeout_onChange ''-5'' initial_customizer) = 1"
  by (simp add: timeout_onChange_def parseInt_examples number_or_def)

text \<open>The handler has no upper bound: 1000 stays 1000.\<close>

lemma timeout_onChange_1000:
  "st_requestTimeout (timeout_onChange ''1000'' initial_customizer) = 1000"
  by (simp add: timeout_onChange_def parseInt_examples number_or_def)

text \<open>
  C3, amended: the timeout set by the input handler is at least 1; input that is not a
  number (such as \<open>abc\<close>) or that parses to 0 gives the default 30; negative input gives
  the minimum 1 (so \<open>-5\<close> gives 1); input from 1 to 300 is kept as parsed.
\<close>

theorem timeout_onChange_lower_bound:
  "1 \<le> st_requestTimeout (timeout_onChange target_value st)
   \<and> (parseInt target_value = None \<or> parseInt target_value = Some 0 \<longrightarrow>
        st_requestTimeout (timeout_onChange target_value st) = 30)
   \<and> (\<forall>n. parseInt target_value = Some n \<and> n < 0 \<longrightarrow>
        st_requestTimeout (timeout_onChange target_value st) = 1)
   \<and> (\<forall>n. parseInt target_value = Some n \<and> 1 \<le> n \<and> n \<le> 300 \<longrightarrow>
        st_requestTimeout (timeout_onChange target_value st) = n)"
  by (auto simp: timeout_onChange_def number_or_def split: option.splits)

theorem timeout_onChange_lower_bound_witness:
  "parseInt ''abc'' = None
   \<and> st_requestTimeout (timeout_onChange ''abc'' initial_customizer) = 30
   \<and> parseInt ''0'' = Some 0
   \<and> st_requestTimeout (timeout_onChange ''0'' initial_customizer) = 30
   \<and> parseInt ''-5'' = Some (- 5)
   \<and> st_requestTimeout (timeout_onChange ''-5'' initial_customizer) = 1
   \<and> parseInt ''42'' = Some 42
   \<and> st_requestTimeout (timeout_onChange ''42'' initial_customizer) = 42"
  using timeout_onChange_lower_bound [of "''abc''" initial_customizer]
    timeout_onChange_lower_bound [of "''0''" initial_customizer]
    timeout_onChange_lower_bound [of "''-5''" initial_customizer]
    timeout_onChange_lower_bound [of "''42''" initial_customizer]
  by (simp add: parseInt_examples)

text \<open>
  C4: the retry count is to be clamped to \<open>[0, 10]\<close>, but the handler only applies the lower
  bound: the input \<open>50\<close> sets the retry count to 50.
\<close>

theorem retry_onChange_50:
  "st_retryCount (retry_onChange ''50'' initial_customizer) = 50"
  by (simp add: retry_onChange_def parseInt_examples number_or_def)

text \<open>The lower bound and the coercion of invalid input to 0 hold.\<close>

lemma retry_onChange_lower_bound:
  "0 \<le> st_retryCount (retry_onChange target_value st)"
  by (simp add: retry_onChange_def)

lemma retry_onChange_examples:
  "st_retryCount (retry_onChange ''-1'' initial_customizer) = 0"
  "st_retryCount (retry_onChange ''abc'' initial_customizer) = 0"
  "st_retryCount (retry_onChange ''7'' initial_customizer) = 7"
  by (simp_all add: retry_onChange_def parseInt_examples number_or_def)

text \<open>
  C5, as stated, fails: a state holding two custom headers of the same name builds the same
  configuration as the state with no custom header, so the configuration does not carry
  the headers.
\<close>

theorem handleGenerate_same_for_other_headers:
  "handleGenerate [()]
     (initial_customizer\<lparr>st_customHeaders :=
        [\<lparr>header_name = ''X-Trace'', header_value = ''a''\<rparr>,
         \<lparr>header_name = ''X-Trace'', header_value = ''b''\<rparr>]\<rparr>)
   = handleGenerate [()] initial_customizer"
  by (simp add: handleGenerate_def initial_customizer_def)

text \<open>
  C5, amended: the configuration handed to the generator consists of \<open>selectedIndices\<close>
  and the four settings only; the accumulated custom headers are not part of it, and
  adding, removing or replacing custom headers does not change the configuration built.
\<close>

theorem handleGenerate_ignores_customHeaders:
  "handleGenerate entries (st\<lparr>st_customHeaders := hs\<rparr>) = handleGenerate entries st
   \<and> handleGenerate entries (addCustomHeader st) = handleGenerate entries st
   \<and> handleGenerate entries (removeCustomHeader index st) = handleGenerate entries st
   \<and> settings (handleGenerate entries st) =
       \<lparr>useProxy = st_useProxy st, followRedirects = st_followRedirects st,
        timeout = st_requestTimeout st, retryCount = st_retryCount st\<rparr>"
  by (simp add: handleGenerate_def addCustomHeader_def removeCustomHeader_def)

section \<open>Properties of the uploader\<close>

lemma is_object_not_nullish: "is_object v \<Longrightarrow> \<not> nullish v"
  by (cases v) simp_all

lemma truthy_defined: "truthy v \<Longrightarrow> v \<noteq> JUndefined"
  by (cases v) simp_all

lemma semanticEntry_valid:
  "valid_entry entry \<Longrightarrow> \<exists>x. semanticEntry entry index = Inr x"
  by (simp add: semanticEntry_def valid_entry_def is_object_not_nullish Let_def)

lemma semanticEntry_fields:
  assumes "semanticEntry entry index = Inr x"
  shows "entryId x = ''entry-'' @ string_of_nat index"
    and "tokens x = []" and "entry_dependencies x = []"
    and "method (request x) = get_prop (get_prop entry ''request'') ''method''"
    and "url (request x) = get_prop (get_prop entry ''request'') ''url''"
    and "body (request x) \<noteq> None \<longleftrightarrow> truthy (get_prop (get_prop entry ''request'') ''postData'')"
    and "response_body (response x) \<noteq> None
           \<longleftrightarrow> truthy (get_prop (get_prop entry ''response'') ''content'')"
  using assms by (auto simp: semanticEntry_def Let_def split: if_splits)

lemma map_entries_Inr:
  "map_entries k es = Inr out \<Longrightarrow>
     length out = length es \<and> (\<forall>i<length es. semanticEntry (es ! i) (k + i) = Inr (out ! i))"
proof (induction es arbitrary: k out)
  case Nil
  then show ?case by simp
next
  case (Cons e es)
  from Cons.prems obtain x xs where x: "semanticEntry e k = Inr x"
    and xs: "map_entries (Suc k) es = Inr xs" and out: "out = x # xs"
    by (auto split: sum.splits)
  from Cons.IH [OF xs] x out show ?case
    by (auto simp: less_Suc_eq_0_disj)
qed

lemma map_entries_valid:
  "\<forall>e\<in>set es. valid_entry e \<Longrightarrow> \<exists>out. map_entries k es = Inr out"
proof (induction es arbitrary: k)
  case Nil
  show ?case by simp
next
  case (Cons e es)
  from Cons.prems semanticEntry_valid [of e k] obtain x where "semanticEntry e k = Inr x"
    by auto
  moreover from Cons obtain xs where "map_entries (Suc k) es = Inr xs"
    by fastforce
  ultimately show ?case by simp
qed

lemma log_entries_Some:
  "log_entries harData = Some es \<Longrightarrow>
     \<not> nullish harData \<and> truthy (get_prop harData ''log'')
     \<and> get_prop (get_prop harData ''log'') ''entries'' = JArr es"
  by (auto simp: log_entries_def split: js.splits option.splits)

lemma get_prop_JArr:
  "get_prop v k = JArr es \<Longrightarrow> \<exists>kvs. v = JObj kvs \<and> map_of kvs k = Some (JArr es)"
  by (cases v) (auto split: option.splits if_splits)

lemma get_prop_JObj:
  "get_prop v k = JObj kvs' \<Longrightarrow> \<exists>kvs. v = JObj kvs \<and> map_of kvs k = Some (JObj kvs')"
  by (cases v) (auto split: option.splits if_splits)

lemma entries_array_log_entries:
  assumes "get_prop (get_prop harData ''log'') ''entries'' = JArr es"
  shows "log_entries harData = Some es"
proof -
  from get_prop_JArr [OF assms] obtain log_kvs
    where l: "get_prop harData ''log'' = JObj log_kvs"
      and e: "map_of log_kvs ''entries'' = Some (JArr es)"
    by blast
  from get_prop_JObj [OF l] obtain kvs
    where "harData = JObj kvs" and "map_of kvs ''log'' = Some (JObj log_kvs)"
    by blast
  with e show ?thesis
    by (simp add: log_entries_def)
qed

lemma semanticEntries_log_entries:
  "JSON_parse text = Inr harData \<Longrightarrow> log_entries harData = Some es \<Longrightarrow>
     semanticEntries JSON_parse (Inr text) = map_entries 0 es"
  by (simp add: semanticEntries_def log_entries_Some Let_def)

lemma semanticEntries_no_log_entries:
  "JSON_parse text = Inr harData \<Longrightarrow> log_entries harData = None \<Longrightarrow>
     \<exists>e. semanticEntries JSON_parse (Inr text) = Inl e \<and> instanceof_Error e \<and> message e \<noteq> []"
  using entries_array_log_entries [of harData]
  by (auto simp: semanticEntries_def Let_def cannot_read_def split: js.splits)

lemma processHARFile_outcome:
  "processHARFile JSON_parse file_text st =
     (case semanticEntries JSON_parse file_text of
        Inr out \<Rightarrow> st\<lparr>isProcessing := False, error := None,
                      dispatched := dispatched st @ [setHarEntries out]\<rparr>
      | Inl e \<Rightarrow> st\<lparr>isProcessing := False,
                    error := Some (if instanceof_Error e then message e
                                   else ''Failed to parse HAR file'')\<rparr>)"
  by (simp add: processHARFile_def Let_def split: sum.splits)

text \<open>
  C7: for a valid HAR with \<open>N\<close> entries the uploader publishes exactly \<open>N\<close> semantic
  entries, the \<open>i\<close>-th built from the \<open>i\<close>-th HAR entry, with the distinct identifiers
  \<open>entry-0\<close> to \<open>entry-(N-1)\<close>; \<open>tokens\<close> and \<open>dependencies\<close> are empty, a request body
  is present only when post-data is present (exactly when it is truthy), and a response
  body only when response content is present (exactly when it is truthy).
\<close>

theorem processHARFile_valid:
  assumes "JSON_parse text = Inr harData" and "log_entries harData = Some es"
    and "\<forall>entry\<in>set es. valid_entry entry"
  shows "\<exists>out.
      dispatched (processHARFile JSON_parse (Inr text) st) = dispatched st @ [setHarEntries out]
      \<and> error (processHARFile JSON_parse (Inr text) st) = None
      \<and> length out = length es
      \<and> map entryId out = map (\<lambda>i. ''entry-'' @ string_of_nat i) [0..<length es]
      \<and> distinct (map entryId out)
      \<and> (\<forall>i<length es.
            semanticEntry (es ! i) i = Inr (out ! i)
            \<and> method (request (out ! i)) = get_prop (get_prop (es ! i) ''request'') ''method''
            \<and> url (request (out ! i)) = get_prop (get_prop (es ! i) ''request'') ''url''
            \<and> tokens (out ! i) = [] \<and> entry_dependencies (out ! i) = []
            \<and> (body (request (out ! i)) \<noteq> None
                 \<longleftrightarrow> truthy (get_prop (get_prop (es ! i) ''request'') ''postData''))
            \<and> (body (request (out ! i)) \<noteq> None
                 \<longrightarrow> get_prop (get_prop (es ! i) ''request'') ''postData'' \<noteq> JUndefined)
            \<and> (response_body (response (out ! i)) \<noteq> None
                 \<longleftrightarrow> truthy (get_prop (get_prop (es ! i) ''response'') ''content''))
            \<and> (response_body (response (out ! i)) \<noteq> None
                 \<longrightarrow> get_prop (get_prop (es ! i) ''response'') ''content'' \<noteq> JUndefined))"
proof -
  from map_entries_valid [OF assms(3)] obtain out where out: "map_entries 0 es = Inr out"
    by blast
  from map_entries_Inr [OF out] have len: "length out = length es"
    and each: "\<And>i. i < length es \<Longrightarrow> semanticEntry (es ! i) i = Inr (out ! i)"
    by simp_all
  have ids: "map entryId out = map (\<lambda>i. ''entry-'' @ string_of_nat i) [0..<length es]"
    by (rule nth_equalityI) (simp_all add: len semanticEntry_fields(1) [OF each])
  have "inj_on (\<lambda>i. ''entry-'' @ string_of_nat i) (set [0..<length es])"
    by (rule inj_onI) (simp add: string_of_nat_inj)
  then have dist: "distinct (map entryId out)"
    by (simp add: ids distinct_map)
  have "dispatched (processHARFile JSON_parse (Inr text) st) = dispatched st @ [setHarEntries out]"
    and "error (processHARFile JSON_parse (Inr text) st) = None"
    by (simp_all add: processHARFile_outcome semanticEntries_log_entries [of JSON_parse "text" harData es] assms(1,2) out)
  with len ids dist show ?thesis
    using semanticEntry_fields [OF each] truthy_defined each by (intro exI [of _ out]) auto
qed

theorem processHARFile_valid_witness:
  "\<exists>out. dispatched (processHARFile (\<lambda>s. Inr example_har) (Inr []) initial_uploader)
            = [setHarEntries out]
     \<and> map entryId out = [''entry-0'', ''entry-1'']
     \<and> body (request (out ! 0)) \<noteq> None \<and> body (request (out ! 1)) = None
     \<and> response_body (response (out ! 0)) \<noteq> None \<and> response_body (response (out ! 1)) = None"
proof -
  obtain es where es: "log_entries example_har = Some es" and len: "length es = 2"
    and valid: "\<forall>entry\<in>set es. valid_entry entry"
    and pd: "truthy (get_prop (get_prop (es ! 0) ''request'') ''postData'')"
      "\<not> truthy (get_prop (get_prop (es ! 1) ''request'') ''postData'')"
      "truthy (get_prop (get_prop (es ! 0) ''response'') ''content'')"
      "\<not> truthy (get_prop (get_prop (es ! 1) ''response'') ''content'')"
    by (simp add: log_entries_def example_har_def valid_entry_def)
  from processHARFile_valid [of "\<lambda>s. Inr example_har" "[]" example_har es initial_uploader,
      OF refl es valid]
  obtain out where
    "dispatched (processHARFile (\<lambda>s. Inr example_har) (Inr []) initial_uploader)
       = dispatched initial_uploader @ [setHarEntries out]"
    "map entryId out = map (\<lambda>i. ''entry-'' @ string_of_nat i) [0..<length es]"
    "\<forall>i<length es.
        (body (request (out ! i)) \<noteq> None
           \<longleftrightarrow> truthy (get_prop (get_prop (es ! i) ''request'') ''postData''))
        \<and> (response_body (response (out ! i)) \<noteq> None
           \<longleftrightarrow> truthy (get_prop (get_prop (es ! i) ''response'') ''content''))"
    by blast
  with len pd show ?thesis
    by (intro exI [of _ out])
      (simp add: initial_uploader_def upt_rec string_of_nat_digits All_less_Suc eval_nat_numeral)
qed

text \<open>
  C8: when the text is malformed JSON, or is JSON without a \<open>log\<close> object that holds an
  \<open>entries\<close> array, processing ends with an error message set (the parser's message, or
  \<open>Invalid HAR file format\<close> for an object without \<open>log\<close>) and nothing is dispatched, so
  the entries published before stay as they are.  For every input the outcome is all or
  nothing: either no error and one dispatch of the complete list, or an error and no
  dispatch.
\<close>

theorem processHARFile_invalid:
  "(JSON_parse text = Inl m \<longrightarrow>
      error (processHARFile JSON_parse (Inr text) st) = Some m
      \<and> dispatched (processHARFile JSON_parse (Inr text) st) = dispatched st)
   \<and> (JSON_parse text = Inr harData \<and> log_entries harData = None \<longrightarrow>
      (\<exists>msg. msg \<noteq> [] \<and> error (processHARFile JSON_parse (Inr text) st) = Some msg)
      \<and> dispatched (processHARFile JSON_parse (Inr text) st) = dispatched st)
   \<and> (JSON_parse text = Inr (JObj kvs) \<and> map_of kvs ''log'' = None \<longrightarrow>
      error (processHARFile JSON_parse (Inr text) st) = Some ''Invalid HAR file format'')
   \<and> (error (processHARFile JSON_parse file_text st) = None
        \<and> (\<exists>out. dispatched (processHARFile JSON_parse file_text st)
                     = dispatched st @ [setHarEntries out])
      \<or> error (processHARFile JSON_parse file_text st) \<noteq> None
        \<and> dispatched (processHARFile JSON_parse file_text st) = dispatched st)"
proof (intro conjI impI)
  assume "JSON_parse text = Inl m"
  then show "error (processHARFile JSON_parse (Inr text) st) = Some m"
    and "dispatched (processHARFile JSON_parse (Inr text) st) = dispatched st"
    by (simp_all add: processHARFile_outcome semanticEntries_def)
next
  assume "JSON_parse text = Inr harData \<and> log_entries harData = None"
  with semanticEntries_no_log_entries [of JSON_parse "text" harData]
  show "\<exists>msg. msg \<noteq> [] \<and> error (processHARFile JSON_parse (Inr text) st) = Some msg"
    and "dispatched (processHARFile JSON_parse (Inr text) st) = dispatched st"
    by (auto simp: processHARFile_outcome)
next
  assume "JSON_parse text = Inr (JObj kvs) \<and> map_of kvs ''log'' = None"
  then show "error (processHARFile JSON_parse (Inr text) st) = Some ''Invalid HAR file format''"
    by (simp add: processHARFile_outcome semanticEntries_def)
next
  show "error (processHARFile JSON_parse file_text st) = None
        \<and> (\<exists>out. dispatched (processHARFile JSON_parse file_text st)
                     = dispatched st @ [setHarEntries out])
      \<or> error (processHARFile JSON_parse file_text st) \<noteq> None
        \<and> dispatched (processHARFile JSON_parse file_text st) = dispatched st"
    by (simp add: processHARFile_outcome split: sum.splits)
qed

theorem processHARFile_invalid_witness:
  "error (processHARFile (\<lambda>s. Inl ''Unexpected end of JSON input'') (Inr ''{'')
            (initial_uploader\<lparr>dispatched := [setHarEntries []]\<rparr>))
     = Some ''Unexpected end of JSON input''
   \<and> dispatched (processHARFile (\<lambda>s. Inl ''Unexpected end of JSON input'') (Inr ''{'')
            (initial_uploader\<lparr>dispatched := [setHarEntries []]\<rparr>))
     = [setHarEntries []]
   \<and> error (processHARFile (\<lambda>s. Inr (JObj [])) (Inr ''{}'')
            (initial_uploader\<lparr>dispatched := [setHarEntries []]\<rparr>))
     = Some ''Invalid HAR file format''
   \<and> dispatched (processHARFile (\<lambda>s. Inr (JObj [])) (Inr ''{}'')
            (initial_uploader\<lparr>dispatched := [setHarEntries []]\<rparr>))
     = [setHarEntries []]"
  using processHARFile_invalid
      [of "\<lambda>s. Inl ''Unexpected end of JSON input''" "''{''" "''Unexpected end of JSON input''"
          "initial_uploader\<lparr>dispatched := [setHarEntries []]\<rparr>" JNull "[]" "Inr []"]
    processHARFile_invalid
      [of "\<lambda>s. Inr (JObj [])" "''{}''" "[]"
          "initial_uploader\<lparr>dispatched := [setHarEntries []]\<rparr>"
          "JObj []" "[]" "Inr []"]
  by (simp add: log_entries_def initial_uploader_def)

section \<open>Properties of the labels\<close>

text \<open>
  \<open>getEntryLabel\<close> returns a string on every input: the only operation that can throw,
  \<^verbatim>\<open>new URL\<close>, is inside the \<^verbatim>\<open>try\<close> block, and an absent entry is handled before it.
\<close>

text \<open>
  C6, as stated, fails: for the entry with the URL \<open>not a url\<close> at index 0 the label is
  \<open>GET Request #0\<close>, not \<open>GET Request #1\<close>, and for the absent entry at index 1 it is
  \<open>Request #1\<close>, with no method.
\<close>

theorem getEntryLabel_zero_based:
  "getEntryLabel example_URL [example_entry ''GET'' ''not a url''] 0 = ''GET Request #0''
   \<and> getEntryLabel example_URL [example_entry ''GET'' ''not a url''] 1 = ''Request #1''"
  by (simp add: getEntryLabel_def example_URL_def example_entry_def string_of_nat_digits)

lemma getEntryLabel_parsed:
  "getEntryLabel example_URL [example_entry ''POST'' ''https://example.com/api/login''] 0
     = ''POST login''"
  by (simp add: getEntryLabel_def example_URL_def example_entry_def)

text \<open>
  C6, amended: the label function never raises; when the URL of the entry fails to parse
  the label is the method followed by \<open>Request #\<close> and a number, and when there is no
  entry at the index, so that no method is known, the label is \<open>Request #\<close> and a number.
\<close>

theorem getEntryLabel_fallback:
  "(\<not> index < length entries \<longrightarrow>
      (\<exists>n. getEntryLabel new_URL entries index = ''Request #'' @ string_of_nat n))
   \<and> (index < length entries \<and> new_URL (url (request (entries ! index))) = None \<longrightarrow>
      (\<exists>n. getEntryLabel new_URL entries index
             = method (request (entries ! index)) @ '' Request #'' @ string_of_nat n))"
  by (auto simp: getEntryLabel_def)

theorem getEntryLabel_fallback_witness:
  "example_URL ''not a url'' = None
   \<and> (\<exists>n. getEntryLabel example_URL [example_entry ''GET'' ''not a url''] 0
             = ''GET Request #'' @ string_of_nat n)
   \<and> (\<exists>n. getEntryLabel example_URL [example_entry ''GET'' ''not a url''] 1
             = ''Request #'' @ string_of_nat n)"
  using getEntryLabel_fallback [of 0 "[example_entry ''GET'' ''not a url'']" example_URL]
    getEntryLabel_fallback [of 1 "[example_entry ''GET'' ''not a url'']" example_URL]
  by (simp add: example_URL_def example_entry_def)

end
